theory Spec2Isabelle
  imports Complex_Main
begin

section \<open>The task table\<close>

text \<open>
  The embedding follows \<^verbatim>\<open>packages/features/tasker/repository.ts\<close>. A row of the
  \<^verbatim>\<open>Task\<close> table is a record; a \<^verbatim>\<open>Date\<close> is its time value, the number of
  milliseconds since the epoch, an \<^typ>\<open>int\<close> (the dates of the table and the current time
  are valid dates); a nullable column is an \<^typ>\<open>'a option\<close>.
  The counters \<^verbatim>\<open>attempts\<close> and \<^verbatim>\<open>maxAttempts\<close> are unbounded integers: the range
  of the storage engine's integer column is not modelled. The schema of the table is not
  part of the sources: the columns are those the class reads and writes, typed as in the
  data model of the spec; \<open>task_id\<close> and \<open>task_type\<close> are the columns \<^verbatim>\<open>id\<close> and
  \<^verbatim>\<open>type\<close>. The table is the list of its rows in storage order. The current time, which the source reads with
  \<^verbatim>\<open>new Date()\<close>, is the first argument \<open>now\<close> of every function that reads it.
\<close>

record task =
  task_id :: string
  task_type :: string
  payload :: string
  scheduledAt :: int
  attempts :: int
  maxAttempts :: int
  lastError :: "string option"
  lastFailedAttemptAt :: "int option"
  succeededAt :: "int option"
  referenceUid :: "string option"
  createdAt :: int

type_synonym db = "task list"

text \<open>
  What a call of the data-access layer throws: a \<^verbatim>\<open>PrismaClientKnownRequestError\<close>
  with its \<^verbatim>\<open>code\<close>, a \<^verbatim>\<open>PrismaClientValidationError\<close> (the client refuses the
  arguments before it sends anything to the store), or anything else.
\<close>

datatype error =
    PrismaClientKnownRequestError string
  | PrismaClientValidationError
  | OtherError string

subsection \<open>Numbers and dates of the language\<close>

text \<open>
  \<^verbatim>\<open>minRetryIntervalMins\<close> is a \<^verbatim>\<open>number\<close>: a double. \<open>Whole k\<close> is a number without
  fractional part, \<open>Fractional q\<close> a finite number with one, and the other three are
  \<^verbatim>\<open>NaN\<close>, \<^verbatim>\<open>Infinity\<close> and \<^verbatim>\<open>-Infinity\<close>. \<open>truthy\<close> is the test of a conditional:
  0 and \<^verbatim>\<open>NaN\<close> are falsy.
\<close>

datatype number = Whole int | Fractional rat | NaN | PosInfinity | NegInfinity

fun truthy :: "number \<Rightarrow> bool" where
  "truthy (Whole k) = (k \<noteq> 0)"
| "truthy (Fractional q) = (q \<noteq> 0)"
| "truthy NaN = False"
| "truthy PosInfinity = True"
| "truthy NegInfinity = True"

text \<open>
  A \<^verbatim>\<open>Date\<close> object holds a time value or is invalid. \<^verbatim>\<open>new Date(v)\<close> on a number
  is invalid when \<open>v\<close> is not finite or lies beyond 8.64e15 milliseconds from the epoch,
  and holds \<open>v\<close> truncated towards zero otherwise.
\<close>

datatype date = Date int | InvalidDate

fun new_Date :: "number \<Rightarrow> date" where
  "new_Date (Whole k) = (if \<bar>k\<bar> \<le> 8640000000000000 then Date k else InvalidDate)"
| "new_Date (Fractional q) =
     (if \<bar>q\<bar> \<le> 8640000000000000 then Date (if q < 0 then \<lceil>q\<rceil> else \<lfloor>q\<rfloor>) else InvalidDate)"
| "new_Date NaN = InvalidDate"
| "new_Date PosInfinity = InvalidDate"
| "new_Date NegInfinity = InvalidDate"

text \<open>
  The double \<^verbatim>\<open>failedAttemptTime.getTime() + 1000 * 60 * minRetryIntervalMins\<close>, for
  the time value \<open>t\<close> of a valid date. For a whole interval the product and the sum are
  whole; they are exact doubles whenever the sum is within the range of a date (below
  \<open>2^53\<close>), and a sum beyond that range stays beyond it after rounding, so the exact
  integer decides the same date. For an interval with a fractional part the rounding of
  the double product and sum is not modelled: the double is \<open>D t q\<close>, a parameter.
\<close>

fun plus_minutes :: "(int \<Rightarrow> rat \<Rightarrow> number) \<Rightarrow> int \<Rightarrow> number \<Rightarrow> number" where
  "plus_minutes D t (Whole k) = Whole (t + 1000 * 60 * k)"
| "plus_minutes D t (Fractional q) = D t q"
| "plus_minutes D t NaN = NaN"
| "plus_minutes D t PosInfinity = PosInfinity"
| "plus_minutes D t NegInfinity = NegInfinity"

subsection \<open>The filters\<close>

definition whereSucceeded :: "task \<Rightarrow> bool" where
  "whereSucceeded t = (succeededAt t \<noteq> None)"

definition whereMaxAttemptsReached :: "task \<Rightarrow> bool" where
  "whereMaxAttemptsReached t = (attempts t = maxAttempts t)"

definition makeWhereUpcomingTasks :: "int \<Rightarrow> task \<Rightarrow> bool" where
  "makeWhereUpcomingTasks now t =
     (succeededAt t = None \<and> scheduledAt t < now \<and> attempts t < maxAttempts t)"

subsection \<open>The data-access layer on one table\<close>

text \<open>
  \<^verbatim>\<open>update\<close> and \<^verbatim>\<open>delete\<close> with a unique \<^verbatim>\<open>where\<close> act on the row that matches
  and throw the known request error \<^verbatim>\<open>P2025\<close> when none does. They return the row
  (updated, or as deleted) and the new table.
\<close>

fun update_unique :: "(task \<Rightarrow> bool) \<Rightarrow> (task \<Rightarrow> task) \<Rightarrow> db \<Rightarrow> error + (task \<times> db)" where
  "update_unique w f [] = Inl (PrismaClientKnownRequestError ''P2025'')"
| "update_unique w f (t # ts) =
     (if w t then Inr (f t, f t # ts)
      else (case update_unique w f ts of
              Inl e \<Rightarrow> Inl e
            | Inr (u, us) \<Rightarrow> Inr (u, t # us)))"

fun delete_unique :: "(task \<Rightarrow> bool) \<Rightarrow> db \<Rightarrow> error + (task \<times> db)" where
  "delete_unique w [] = Inl (PrismaClientKnownRequestError ''P2025'')"
| "delete_unique w (t # ts) =
     (if w t then Inr (t, ts)
      else (case delete_unique w ts of
              Inl e \<Rightarrow> Inl e
            | Inr (u, us) \<Rightarrow> Inr (u, t # us)))"

subsection \<open>The class Task\<close>

text \<open>
  Modelled from the spec: the schema of the table is not part of the sources. The id of
  a new row is assigned by the store (\<open>newId\<close>), \<^verbatim>\<open>attempts\<close> starts at 0,
  \<^verbatim>\<open>scheduledAt\<close> defaults to the current time, \<^verbatim>\<open>maxAttempts\<close> to the schema's
  default (\<open>defaultMaxAttempts\<close>), and the insert fails with the unique-constraint
  error \<^verbatim>\<open>P2002\<close> when the id, or a non-null \<^verbatim>\<open>(referenceUid, type)\<close>, is taken.
\<close>

definition create ::
  "int \<Rightarrow> string \<Rightarrow> int \<Rightarrow> string \<Rightarrow> string \<Rightarrow> int option \<Rightarrow> int option \<Rightarrow> string option \<Rightarrow> db
     \<Rightarrow> error + (string \<times> db)" where
  "create now newId defaultMaxAttempts ty pl scheduledAt_opt maxAttempts_opt referenceUid_opt db =
     (if list_ex (\<lambda>t. task_id t = newId) db
         \<or> list_ex (\<lambda>t. referenceUid_opt \<noteq> None \<and> referenceUid t = referenceUid_opt \<and> task_type t = ty) db
      then Inl (PrismaClientKnownRequestError ''P2002'')
      else
        let newTask = \<lparr> task_id = newId, task_type = ty, payload = pl,
              scheduledAt = (case scheduledAt_opt of None \<Rightarrow> now | Some s \<Rightarrow> s),
              attempts = 0,
              maxAttempts = (case maxAttempts_opt of None \<Rightarrow> defaultMaxAttempts | Some m \<Rightarrow> m),
              lastError = None, lastFailedAttemptAt = None, succeededAt = None,
              referenceUid = referenceUid_opt, createdAt = now \<rparr>
        in Inr (task_id newTask, db @ [newTask]))"

text \<open>
  \<^verbatim>\<open>findMany\<close> with \<^verbatim>\<open>orderBy: { scheduledAt: "asc" }\<close> and \<^verbatim>\<open>take: 1000\<close>. Rows
  with equal \<^verbatim>\<open>scheduledAt\<close> keep their storage order (a stable sort).
\<close>

definition getNextBatch :: "int \<Rightarrow> db \<Rightarrow> task list" where
  "getNextBatch now db = take 1000 (sort_key scheduledAt (filter (makeWhereUpcomingTasks now) db))"

definition getFailed :: "db \<Rightarrow> task list" where
  "getFailed db = filter whereMaxAttemptsReached db"

definition getSucceeded :: "db \<Rightarrow> task list" where
  "getSucceeded db = filter whereSucceeded db"

definition count :: "db \<Rightarrow> nat" where
  "count db = length db"

definition countUpcoming :: "int \<Rightarrow> db \<Rightarrow> nat" where
  "countUpcoming now db = length (filter (makeWhereUpcomingTasks now) db)"

definition countFailed :: "db \<Rightarrow> nat" where
  "countFailed db = length (filter whereMaxAttemptsReached db)"

definition countSucceeded :: "db \<Rightarrow> nat" where
  "countSucceeded db = length (filter whereSucceeded db)"

text \<open>
  \<^verbatim>\<open>retry\<close> and \<^verbatim>\<open>succeed\<close>; \<open>retry_data\<close> and \<open>succeed_data\<close> are the \<^verbatim>\<open>data\<close>
  of their updates. \<open>lastErr = None\<close> is an omitted \<^verbatim>\<open>lastError\<close> (an \<^verbatim>\<open>undefined\<close> field
  of \<^verbatim>\<open>data\<close> is not written); \<open>minRetryIntervalMins = None\<close> is \<^verbatim>\<open>undefined\<close> or
  \<^verbatim>\<open>null\<close>. \<open>updatedScheduledAt\<close> is the constant of that name: the source tests the
  interval for truthiness, and \<open>None\<close> is \<^verbatim>\<open>undefined\<close>. A \<^verbatim>\<open>Date\<close> object is always
  truthy, also an invalid one, so it is always spread into \<^verbatim>\<open>data\<close>; the client refuses
  an invalid \<^verbatim>\<open>Date\<close> with a validation error before the update reaches the store.
\<close>

definition updatedScheduledAt :: "(int \<Rightarrow> rat \<Rightarrow> number) \<Rightarrow> int \<Rightarrow> number option \<Rightarrow> date option" where
  "updatedScheduledAt D failedAttemptTime minRetryIntervalMins =
     (case minRetryIntervalMins of
        None \<Rightarrow> None
      | Some m \<Rightarrow>
          if truthy m then Some (new_Date (plus_minutes D failedAttemptTime m)) else None)"

definition retry_data :: "string option \<Rightarrow> int \<Rightarrow> date option \<Rightarrow> task \<Rightarrow> task" where
  "retry_data lastErr failedAttemptTime updatedScheduledAt_value t =
     (let t1 = t\<lparr>attempts := attempts t + 1\<rparr>;
          t2 = (case lastErr of None \<Rightarrow> t1 | Some e \<Rightarrow> t1\<lparr>lastError := Some e\<rparr>);
          t3 = t2\<lparr>lastFailedAttemptAt := Some failedAttemptTime\<rparr>
      in (case updatedScheduledAt_value of
            Some (Date s) \<Rightarrow> t3\<lparr>scheduledAt := s\<rparr>
          | _ \<Rightarrow> t3))"

definition retry ::
  "(int \<Rightarrow> rat \<Rightarrow> number) \<Rightarrow> int \<Rightarrow> string \<Rightarrow> string option \<Rightarrow> number option \<Rightarrow> db
     \<Rightarrow> error + (task \<times> db)" where
  "retry D now taskId lastErr minRetryIntervalMins db =
     (let failedAttemptTime = now;
          u = updatedScheduledAt D failedAttemptTime minRetryIntervalMins
      in if u = Some InvalidDate then Inl PrismaClientValidationError
         else update_unique (\<lambda>t. task_id t = taskId) (retry_data lastErr failedAttemptTime u) db)"

definition succeed_data :: "int \<Rightarrow> task \<Rightarrow> task" where
  "succeed_data now t = t\<lparr>attempts := attempts t + 1, succeededAt := Some now\<rparr>"

definition succeed :: "int \<Rightarrow> string \<Rightarrow> db \<Rightarrow> error + (task \<times> db)" where
  "succeed now taskId db = update_unique (\<lambda>t. task_id t = taskId) (succeed_data now) db"

text \<open>
  \<^verbatim>\<open>db.task.delete\<close> as the class calls it. The store can fail a call for a reason
  that is not in the table (a lost connection, a timeout): \<open>fault\<close> is the error it
  throws then, and \<open>None\<close> when it answers.
\<close>

definition db_task_delete :: "error option \<Rightarrow> (task \<Rightarrow> bool) \<Rightarrow> db \<Rightarrow> error + (task \<times> db)" where
  "db_task_delete fault w db = (case fault of Some e \<Rightarrow> Inl e | None \<Rightarrow> delete_unique w db)"

definition cancel :: "error option \<Rightarrow> string \<Rightarrow> db \<Rightarrow> error + (task \<times> db)" where
  "cancel fault taskId db = db_task_delete fault (\<lambda>t. task_id t = taskId) db"

text \<open>
  \<^verbatim>\<open>cancelWithReference\<close>: the \<^verbatim>\<open>try\<close> around the delete, and the \<^verbatim>\<open>catch\<close> that
  returns \<^verbatim>\<open>null\<close> (\<open>None\<close>) for the known request error \<^verbatim>\<open>P2025\<close> and throws every
  other error again. The result is the \<^verbatim>\<open>id\<close> of the deleted row, or \<open>None\<close>.
\<close>

definition cancelWithReference ::
  "error option \<Rightarrow> string \<Rightarrow> string \<Rightarrow> db \<Rightarrow> error + (string option \<times> db)" where
  "cancelWithReference fault refUid ty db =
     (case db_task_delete fault (\<lambda>t. referenceUid t = Some refUid \<and> task_type t = ty) db of
        Inr (t, db') \<Rightarrow> Inr (Some (task_id t), db')
      | Inl e \<Rightarrow>
          (if e = PrismaClientKnownRequestError ''P2025'' then Inr (None, db) else Inl e))"

text \<open>The body of \<^verbatim>\<open>cleanup\<close> is commented out: the call returns and writes nothing.\<close>

definition cleanup :: "db \<Rightarrow> db" where
  "cleanup db = db"

subsection \<open>The supersession check\<close>

text \<open>
  \<^verbatim>\<open>hasNewerScanTaskForStepId\<close> calls three things that are not code of the class: the
  storage engine's evaluation of \<^verbatim>\<open>(payload::jsonb ->> 'workflowStepId')::int\<close>, the
  schema's \<^verbatim>\<open>parse\<close> after \<^verbatim>\<open>JSON.parse\<close>, and the \<^verbatim>\<open>Date\<close> constructor on a
  string. They are parameters of the model:
  \<^item> \<open>jsonb_workflowStepId p\<close> is the value of the SQL expression on the payload \<open>p\<close>:
    \<open>Inl e\<close> when a cast raises (the text is not JSON, or the member is not an integer),
    \<open>Inr None\<close> for SQL \<^verbatim>\<open>NULL\<close>;
  \<^item> \<open>schema_parse p\<close> is \<^verbatim>\<open>scanWorkflowBodySchema.parse(JSON.parse(p))\<close>, \<open>None\<close>
    when either throws; of the parsed object the function reads \<^verbatim>\<open>createdAt\<close> only;
  \<^item> \<open>date_value s\<close> is the time value of \<^verbatim>\<open>new Date(s)\<close>, \<open>None\<close> for an invalid date
    (\<^verbatim>\<open>NaN\<close>, for which every comparison is false).
\<close>

datatype scan_body = ScanBody (body_createdAt: "string option")

record engines =
  jsonb_workflowStepId :: "string \<Rightarrow> error + int option"
  schema_parse :: "string \<Rightarrow> scan_body option"
  date_value :: "string \<Rightarrow> int option"

text \<open>
  The raw query. The conditions of \<^verbatim>\<open>WHERE\<close> are evaluated in the order written, so
  the casts run on the rows of type \<^verbatim>\<open>scanWorkflowBody\<close> that have not succeeded; a
  cast that raises fails the whole query.
\<close>

fun queryRaw_payloads :: "(string \<Rightarrow> error + int option) \<Rightarrow> int \<Rightarrow> db \<Rightarrow> error + string list" where
  "queryRaw_payloads ev workflowStepId [] = Inr []"
| "queryRaw_payloads ev workflowStepId (t # ts) =
     (if task_type t = ''scanWorkflowBody'' \<and> succeededAt t = None then
        (case ev (payload t) of
           Inl e \<Rightarrow> Inl e
         | Inr v \<Rightarrow>
             (case queryRaw_payloads ev workflowStepId ts of
                Inl e \<Rightarrow> Inl e
              | Inr ps \<Rightarrow> Inr (if v = Some workflowStepId then payload t # ps else ps)))
      else queryRaw_payloads ev workflowStepId ts)"

text \<open>The callback of \<^verbatim>\<open>tasks.some\<close>, with its \<^verbatim>\<open>try\<close>.\<close>

definition is_newer :: "engines \<Rightarrow> string \<Rightarrow> string \<Rightarrow> bool" where
  "is_newer E candidateCreatedAt p =
     (case schema_parse E p of
        None \<Rightarrow> False
      | Some parsed \<Rightarrow>
          (case body_createdAt parsed of
             None \<Rightarrow> False
           | Some c \<Rightarrow>
               (if c = [] then False
                else (case (date_value E c, date_value E candidateCreatedAt) of
                        (Some a, Some b) \<Rightarrow> b < a
                      | _ \<Rightarrow> False))))"

definition hasNewerScanTaskForStepId :: "engines \<Rightarrow> int \<Rightarrow> string \<Rightarrow> db \<Rightarrow> error + bool" where
  "hasNewerScanTaskForStepId E workflowStepId candidateCreatedAt db =
     (case queryRaw_payloads (jsonb_workflowStepId E) workflowStepId db of
        Inl e \<Rightarrow> Inl e
      | Inr tasks \<Rightarrow> Inr (list_ex (is_newer E candidateCreatedAt) tasks))"

subsection \<open>Sequences of calls\<close>

text \<open>
  A call of the class that writes the table, and the table after it. \<open>run\<close> performs a
  list of calls, each at its own time, and stops at the first one that throws.
\<close>

datatype call =
    Create string int string string "int option" "int option" "string option"
  | Retry string "string option" "number option"
  | Succeed string
  | Cancel "error option" string
  | CancelWithReference "error option" string string
  | Cleanup

fun exec :: "(int \<Rightarrow> rat \<Rightarrow> number) \<Rightarrow> int \<Rightarrow> call \<Rightarrow> db \<Rightarrow> error + db" where
  "exec D now (Create newId dflt ty pl s m r) db = map_sum (\<lambda>e. e) snd (create now newId dflt ty pl s m r db)"
| "exec D now (Retry i e m) db = map_sum (\<lambda>e. e) snd (retry D now i e m db)"
| "exec D now (Succeed i) db = map_sum (\<lambda>e. e) snd (succeed now i db)"
| "exec D now (Cancel fault i) db = map_sum (\<lambda>e. e) snd (cancel fault i db)"
| "exec D now (CancelWithReference fault r ty) db = map_sum (\<lambda>e. e) snd (cancelWithReference fault r ty db)"
| "exec D now Cleanup db = Inr (cleanup db)"

fun run :: "(int \<Rightarrow> rat \<Rightarrow> number) \<Rightarrow> (int \<times> call) list \<Rightarrow> db \<Rightarrow> error + db" where
  "run D [] db = Inr db"
| "run D ((now, c) # cs) db = (case exec D now c db of Inl e \<Rightarrow> Inl e | Inr db' \<Rightarrow> run D cs db')"

text \<open>The row with a given id, as a reader of the table finds it.\<close>

definition lookup :: "string \<Rightarrow> db \<Rightarrow> task option" where
  "lookup i db = find (\<lambda>t. task_id t = i) db"

subsection \<open>Example rows\<close>

text \<open>
  For the examples, the double arithmetic without rounding: it is right where the exact
  sum is a double, as it is for the half minute used below.
\<close>

definition exact_ms :: "int \<Rightarrow> rat \<Rightarrow> number" where
  "exact_ms t q = Fractional (of_int t + 1000 * 60 * q)"

definition mk_task :: "string \<Rightarrow> int \<Rightarrow> int \<Rightarrow> int \<Rightarrow> int option \<Rightarrow> task" where
  "mk_task i sched att mx succ =
     \<lparr> task_id = i, task_type = ''sendEmail'', payload = ''{}'', scheduledAt = sched,
       attempts = att, maxAttempts = mx, lastError = None, lastFailedAttemptAt = None,
       succeededAt = succ, referenceUid = None, createdAt = 0 \<rparr>"

text \<open>
  An instance of the engines for the examples. It agrees with PostgreSQL,
  \<^verbatim>\<open>JSON.parse\<close> and \<^verbatim>\<open>Date\<close> on the three payloads and the two timestamps below,
  and takes every other string as text that is not JSON and as an invalid date. Its
  schema accepts the first two payloads and rejects the third.
\<close>

definition payload_step7 :: string where
  \<open>payload_step7 = ''{"userId":1,"workflowStepId":7,"createdAt":"2024-01-02T00:00:00.000Z"}''\<close>

definition payload_no_date :: string where
  \<open>payload_no_date = ''{"userId":1,"workflowStepId":7}''\<close>

definition payload_bad_schema :: string where
  \<open>payload_bad_schema = ''{"workflowStepId":7,"createdAt":5}''\<close>

definition example_engines :: engines where
  "example_engines =
     \<lparr> jsonb_workflowStepId =
         (\<lambda>p. if p = payload_step7 \<or> p = payload_no_date \<or> p = payload_bad_schema then Inr (Some 7)
              else Inl (PrismaClientKnownRequestError ''P2010'')),
       schema_parse =
         (\<lambda>p. if p = payload_step7 then Some (ScanBody (Some ''2024-01-02T00:00:00.000Z''))
              else if p = payload_no_date then Some (ScanBody None)
              else None),
       date_value =
         (\<lambda>s. if s = ''2024-01-02T00:00:00.000Z'' then Some 1704153600000
              else if s = ''2024-01-01T00:00:00.000Z'' then Some 1704067200000
              else None) \<rparr>"

definition scan_task :: "string \<Rightarrow> string \<Rightarrow> task" where
  "scan_task i pl =
     \<lparr> task_id = i, task_type = ''scanWorkflowBody'', payload = pl, scheduledAt = 0,
       attempts = 0, maxAttempts = 3, lastError = None, lastFailedAttemptAt = None,
       succeededAt = None, referenceUid = None, createdAt = 0 \<rparr>"

section \<open>The store primitives\<close>

lemma find_in_set: "find w db = Some t \<Longrightarrow> t \<in> set db \<and> w t"
  by (induction db) (auto split: if_splits)

lemma update_unique_none:
  "find w db = None \<Longrightarrow> update_unique w f db = Inl (PrismaClientKnownRequestError ''P2025'')"
  by (induction db) (auto split: if_splits)

lemma delete_unique_none:
  "find w db = None \<Longrightarrow> delete_unique w db = Inl (PrismaClientKnownRequestError ''P2025'')"
  by (induction db) (auto split: if_splits)

lemma update_unique_some:
  "find w db = Some t \<Longrightarrow> \<exists>db'. update_unique w f db = Inr (f t, db') \<and> length db' = length db"
  by (induction db) (auto split: if_splits)

lemma update_unique_result:
  "update_unique w f db = Inr (u, db') \<Longrightarrow> \<exists>t. find w db = Some t \<and> u = f t"
  by (induction db arbitrary: db') (auto split: if_splits sum.splits)

lemma delete_unique_some:
  "find w db = Some t \<Longrightarrow> delete_unique w db = Inr (t, remove1 t db)"
  by (induction db) (auto split: if_splits dest: find_in_set)

lemma delete_unique_result:
  "delete_unique w db = Inr (u, db') \<Longrightarrow> find w db = Some u \<and> db' = remove1 u db"
proof (induction db arbitrary: db')
  case Nil
  then show ?case by simp
next
  case (Cons a db)
  show ?case
  proof (cases "w a")
    case True
    with Cons.prems show ?thesis by simp
  next
    case False
    with Cons.prems obtain us where d: "delete_unique w db = Inr (u, us)" and e: "db' = a # us"
      by (auto split: sum.splits)
    from Cons.IH [OF d] have f: "find w db = Some u" and r: "us = remove1 u db" by simp_all
    from f have "w u" by (simp add: find_in_set)
    with False have "a \<noteq> u" by auto
    with False f r e show ?thesis by simp
  qed
qed


lemma lookup_Cons: "lookup j (a # db) = (if task_id a = j then Some a else lookup j db)"
  by (simp add: lookup_def)

lemma lookup_Nil: "lookup j [] = None"
  by (simp add: lookup_def)

lemma update_unique_lookup:
  assumes f: "\<And>x. task_id (f x) = task_id x"
  shows "update_unique (\<lambda>t. task_id t = i) f db = Inr (u, db') \<Longrightarrow>
         lookup j db' = (if j = i then Some u else lookup j db)"
proof (induction db arbitrary: db')
  case Nil
  then show ?case by simp
next
  case (Cons a db)
  show ?case
  proof (cases "task_id a = i")
    case True
    with Cons.prems have "u = f a" and "db' = f a # db" by auto
    with True f show ?thesis by (simp add: lookup_Cons)
  next
    case False
    with Cons.prems obtain us where d: "update_unique (\<lambda>t. task_id t = i) f db = Inr (u, us)"
      and e: "db' = a # us"
      by (auto split: sum.splits)
    from Cons.IH [OF d] False e show ?thesis
      by (cases "j = i") (auto simp: lookup_Cons)
  qed
qed

lemma update_unique_ids:
  assumes f: "\<And>x. task_id (f x) = task_id x"
  shows "update_unique w f db = Inr (u, db') \<Longrightarrow> map task_id db' = map task_id db"
proof (induction db arbitrary: db')
  case Nil
  then show ?case by simp
next
  case (Cons a db)
  show ?case
  proof (cases "w a")
    case True
    with Cons.prems f show ?thesis by auto
  next
    case False
    with Cons.prems obtain us where d: "update_unique w f db = Inr (u, us)" and e: "db' = a # us"
      by (auto split: sum.splits)
    from Cons.IH [OF d] e show ?thesis by simp
  qed
qed

lemma lookup_None_iff: "lookup j db = None \<longleftrightarrow> j \<notin> task_id ` set db"
  by (induction db) (auto simp: lookup_Cons lookup_Nil)

lemma distinct_map_remove1: "distinct (map f xs) \<Longrightarrow> distinct (map f (remove1 x xs))"
proof -
  assume d: "distinct (map f xs)"
  then have "distinct xs" and i: "inj_on f (set xs)" by (simp_all add: distinct_map)
  moreover have "set (remove1 x xs) \<subseteq> set xs" by (rule set_remove1_subset)
  ultimately have "distinct (remove1 x xs)" and "inj_on f (set (remove1 x xs))"
    by (auto intro: inj_on_subset)
  then show ?thesis by (simp add: distinct_map)
qed

lemma lookup_remove1:
  "distinct (map task_id db) \<Longrightarrow> u \<in> set db \<Longrightarrow>
   lookup j (remove1 u db) = (if j = task_id u then None else lookup j db)"
proof (induction db)
  case Nil
  then show ?case by simp
next
  case (Cons a db)
  show ?case
  proof (cases "a = u")
    case True
    with Cons.prems have "task_id u \<notin> task_id ` set db" by simp
    then have "lookup (task_id u) db = None" by (simp add: lookup_None_iff)
    with True show ?thesis by (simp add: lookup_Cons)
  next
    case False
    with Cons.prems have u: "u \<in> set db" and d: "distinct (map task_id db)"
      and n: "task_id a \<noteq> task_id u" by (auto simp: image_iff)
    from Cons.IH [OF d u] False n show ?thesis
      by (cases "j = task_id u") (auto simp: lookup_Cons)
  qed
qed

section \<open>One call on the table\<close>

lemma retry_data_id [simp]: "task_id (retry_data e ft us t) = task_id t"
  by (simp add: retry_data_def Let_def split: option.splits date.splits)

lemma succeed_data_id [simp]: "task_id (succeed_data now t) = task_id t"
  by (simp add: succeed_data_def)

lemma lookup_find: "lookup i db = find (\<lambda>t. task_id t = i) db"
  by (simp add: lookup_def)

lemma lookup_append_Some: "lookup i db = Some t \<Longrightarrow> lookup i (db @ xs) = Some t"
  by (induction db) (auto simp: lookup_Cons lookup_Nil split: if_splits)

lemma map_sum_snd_Inr: "map_sum (\<lambda>e. e) snd r = Inr y \<longleftrightarrow> (\<exists>u. r = Inr (u, y))"
  by (cases r) auto

lemma retry_Inr:
  "retry D now j e m db = Inr (u, db') \<longleftrightarrow>
     updatedScheduledAt D now m \<noteq> Some InvalidDate
     \<and> update_unique (\<lambda>t. task_id t = j) (retry_data e now (updatedScheduledAt D now m)) db = Inr (u, db')"
  by (simp add: retry_def Let_def)


lemma db_task_delete_Inr:
  "db_task_delete fault w db = Inr (u, db') \<longleftrightarrow> fault = None \<and> delete_unique w db = Inr (u, db')"
  by (simp add: db_task_delete_def split: option.splits)

lemma cancelWithReference_Inr:
  "cancelWithReference fault rf ty db = Inr (x, db') \<Longrightarrow>
   db' = db \<or> (\<exists>u. delete_unique (\<lambda>t. referenceUid t = Some rf \<and> task_type t = ty) db = Inr (u, db'))"
  by (auto simp: cancelWithReference_def db_task_delete_def split: sum.splits option.splits if_splits)

lemma exec_lookup:
  assumes d: "distinct (map task_id db)"
    and ex: "exec D now c db = Inr db'"
    and l: "lookup i db = Some t"
    and l': "lookup i db' = Some t'"
  shows "t' = (case c of
                 Retry j e m \<Rightarrow>
                   if j = i then retry_data e now (updatedScheduledAt D now m) t else t
               | Succeed j \<Rightarrow> if j = i then succeed_data now t else t
               | _ \<Rightarrow> t)"
proof (cases c)
  case (Create newId dflt ty pl s m r)
  with ex have "db' = db @ [\<lparr> task_id = newId, task_type = ty, payload = pl,
              scheduledAt = (case s of None \<Rightarrow> now | Some s \<Rightarrow> s),
              attempts = 0,
              maxAttempts = (case m of None \<Rightarrow> dflt | Some m \<Rightarrow> m),
              lastError = None, lastFailedAttemptAt = None, succeededAt = None,
              referenceUid = r, createdAt = now \<rparr>]"
    by (auto simp: create_def Let_def map_sum_snd_Inr split: if_splits)
  with l l' Create show ?thesis by (simp add: lookup_append_Some)
next
  case (Retry j e m)
  let ?f = "retry_data e now (updatedScheduledAt D now m)"
  from ex Retry obtain u where u: "update_unique (\<lambda>t. task_id t = j) ?f db = Inr (u, db')"
    by (auto simp: map_sum_snd_Inr retry_Inr)
  from update_unique_result [OF u] obtain t0 where t0: "lookup j db = Some t0" and uf: "u = ?f t0"
    by (auto simp: lookup_find)
  have "lookup i db' = (if i = j then Some u else lookup i db)"
    by (rule update_unique_lookup [OF _ u]) simp
  with l l' t0 uf Retry show ?thesis by (auto split: if_splits)
next
  case (Succeed j)
  from ex Succeed obtain u where u: "update_unique (\<lambda>t. task_id t = j) (succeed_data now) db = Inr (u, db')"
    by (auto simp: succeed_def map_sum_snd_Inr)
  from update_unique_result [OF u] obtain t0 where t0: "lookup j db = Some t0" and uf: "u = succeed_data now t0"
    by (auto simp: lookup_find)
  have "lookup i db' = (if i = j then Some u else lookup i db)"
    by (rule update_unique_lookup [OF _ u]) simp
  with l l' t0 uf Succeed show ?thesis by (auto split: if_splits)
next
  case (Cancel fault j)
  from ex Cancel obtain u where u: "delete_unique (\<lambda>t. task_id t = j) db = Inr (u, db')"
    by (auto simp: cancel_def map_sum_snd_Inr db_task_delete_Inr)
  from delete_unique_result [OF u] have f: "find (\<lambda>t. task_id t = j) db = Some u" and r: "db' = remove1 u db"
    by simp_all
  from f have "u \<in> set db" by (simp add: find_in_set)
  from lookup_remove1 [OF d this, of i] r l l' Cancel show ?thesis by (auto split: if_splits)
next
  case (CancelWithReference fault rf ty)
  let ?w = "\<lambda>t. referenceUid t = Some rf \<and> task_type t = ty"
  from ex CancelWithReference obtain x where "cancelWithReference fault rf ty db = Inr (x, db')"
    by (auto simp: map_sum_snd_Inr)
  from cancelWithReference_Inr [OF this]
  consider (same) "db' = db" | (del) u where "delete_unique ?w db = Inr (u, db')" by blast
  then show ?thesis
  proof cases
    case same
    with l l' CancelWithReference show ?thesis by simp
  next
    case del
    from delete_unique_result [OF del] have f: "find ?w db = Some u" and r: "db' = remove1 u db"
      by simp_all
    from f have "u \<in> set db" by (simp add: find_in_set)
    from lookup_remove1 [OF d this, of i] r l l' CancelWithReference show ?thesis
      by (auto split: if_splits)
  qed
next
  case Cleanup
  with ex l l' show ?thesis by (simp add: cleanup_def)
qed

lemma exec_distinct:
  assumes d: "distinct (map task_id db)" and ex: "exec D now c db = Inr db'"
  shows "distinct (map task_id db')"
proof (cases c)
  case (Create newId dflt ty pl s m r)
  with ex have n: "\<not> list_ex (\<lambda>t. task_id t = newId) db"
    and "map task_id db' = map task_id db @ [newId]"
    by (auto simp: create_def Let_def map_sum_snd_Inr split: if_splits)
  with d show ?thesis by (auto simp: list_ex_iff)
next
  case (Retry j e m)
  with ex obtain u where
    "update_unique (\<lambda>t. task_id t = j) (retry_data e now (updatedScheduledAt D now m)) db = Inr (u, db')"
    by (auto simp: map_sum_snd_Inr retry_Inr)
  then have "map task_id db' = map task_id db" by (rule update_unique_ids [rotated]) simp
  with d show ?thesis by simp
next
  case (Succeed j)
  with ex obtain u where "update_unique (\<lambda>t. task_id t = j) (succeed_data now) db = Inr (u, db')"
    by (auto simp: succeed_def map_sum_snd_Inr)
  then have "map task_id db' = map task_id db" by (rule update_unique_ids [rotated]) simp
  with d show ?thesis by simp
next
  case (Cancel fault j)
  with ex obtain u where "delete_unique (\<lambda>t. task_id t = j) db = Inr (u, db')"
    by (auto simp: cancel_def map_sum_snd_Inr db_task_delete_Inr)
  then have "db' = remove1 u db" by (simp add: delete_unique_result)
  with d show ?thesis by (simp add: distinct_map_remove1)
next
  case (CancelWithReference fault rf ty)
  with ex obtain x where "cancelWithReference fault rf ty db = Inr (x, db')"
    by (auto simp: map_sum_snd_Inr)
  from cancelWithReference_Inr [OF this] have "db' = db \<or> (\<exists>u. db' = remove1 u db)"
    by (auto dest: delete_unique_result)
  with d show ?thesis by (auto simp: distinct_map_remove1)
next
  case Cleanup
  with ex d show ?thesis by (simp add: cleanup_def)
qed

lemma retry_existing:
  assumes l: "lookup i db = Some t"
    and v: "updatedScheduledAt D now m \<noteq> Some InvalidDate"
  shows "\<exists>db'. retry D now i e m db = Inr (retry_data e now (updatedScheduledAt D now m) t, db')
         \<and> lookup i db' = Some (retry_data e now (updatedScheduledAt D now m) t)
         \<and> (\<forall>j. j \<noteq> i \<longrightarrow> lookup j db' = lookup j db)
         \<and> length db' = length db"
proof -
  let ?f = "retry_data e now (updatedScheduledAt D now m)"
  from l have "find (\<lambda>t. task_id t = i) db = Some t" by (simp add: lookup_find)
  from update_unique_some [OF this, of ?f] obtain db'
    where u: "update_unique (\<lambda>t. task_id t = i) ?f db = Inr (?f t, db')" and n: "length db' = length db"
    by blast
  have lk: "\<And>j. lookup j db' = (if j = i then Some (?f t) else lookup j db)"
    by (rule update_unique_lookup [OF _ u]) simp
  from u v have "retry D now i e m db = Inr (?f t, db')" by (simp add: retry_Inr)
  with lk n show ?thesis by auto
qed



lemma retry_data_succeededAt: "succeededAt (retry_data e ft us t) = succeededAt t"
  by (simp add: retry_data_def Let_def split: option.splits date.splits)



section \<open>Retry\<close>

lemma retry_data_fields:
  "retry_data e now u t
     = t\<lparr> attempts := attempts t + 1,
          lastError := (case e of None \<Rightarrow> lastError t | Some x \<Rightarrow> Some x),
          lastFailedAttemptAt := Some now,
          scheduledAt := (case u of Some (Date s) \<Rightarrow> s | _ \<Rightarrow> scheduledAt t) \<rparr>"
  by (simp add: retry_data_def Let_def split: option.splits date.splits)

lemma updatedScheduledAt_falsy:
  "updatedScheduledAt D now None = None"
  "updatedScheduledAt D now (Some (Whole 0)) = None"
  "updatedScheduledAt D now (Some (Fractional 0)) = None"
  "updatedScheduledAt D now (Some NaN) = None"
  by (simp_all add: updatedScheduledAt_def)







text \<open>
  Claim C10: for every existing task, \<^verbatim>\<open>retry\<close> with \<^verbatim>\<open>minRetryIntervalMins\<close> equal
  to 0 (or null) leaves \<^verbatim>\<open>scheduledAt\<close> unchanged, exactly as if the parameter had
  been omitted; \<^verbatim>\<open>attempts\<close> is still incremented and \<^verbatim>\<open>lastFailedAttemptAt\<close> is
  still set to the current time.
\<close>

theorem retry_falsy_interval:
  assumes "lookup i db = Some t" and "m = None \<or> m = Some (Whole 0)"
  shows "\<exists>t' db'. retry D now i e m db = Inr (t', db') \<and> lookup i db' = Some t'
           \<and> scheduledAt t' = scheduledAt t \<and> attempts t' = attempts t + 1
           \<and> lastFailedAttemptAt t' = Some now
           \<and> retry D now i e m db = retry D now i e None db"
proof -
  from assms(2) have u: "updatedScheduledAt D now m = None"
    by (auto simp: updatedScheduledAt_falsy)
  then have eq: "retry D now i e m db = retry D now i e None db"
    by (simp add: retry_def updatedScheduledAt_falsy)
  from u have v: "updatedScheduledAt D now m \<noteq> Some InvalidDate" by simp
  from retry_existing [OF assms(1) v, of e] u eq show ?thesis
    unfolding retry_data_fields by auto
qed

theorem retry_falsy_interval_witness:
  "lookup ''a'' [mk_task ''a'' 5 0 3 None] = Some (mk_task ''a'' 5 0 3 None)
   \<and> (\<exists>t' db'. retry exact_ms 100 ''a'' None (Some (Whole 0)) [mk_task ''a'' 5 0 3 None] = Inr (t', db')
         \<and> scheduledAt t' = 5 \<and> attempts t' = 1 \<and> lastFailedAttemptAt t' = Some 100
         \<and> retry exact_ms 100 ''a'' None (Some (Whole 0)) [mk_task ''a'' 5 0 3 None]
             = retry exact_ms 100 ''a'' None None [mk_task ''a'' 5 0 3 None])"
proof -
  have h: "lookup ''a'' [mk_task ''a'' 5 0 3 None] = Some (mk_task ''a'' 5 0 3 None)"
    by (simp add: lookup_def mk_task_def)
  have m: "Some (Whole 0) = None \<or> Some (Whole 0) = Some (Whole 0)" by simp
  from retry_falsy_interval [OF h m, of exact_ms 100 None] h show ?thesis
    by (auto simp: mk_task_def)
qed

section \<open>Attempts and success\<close>



text \<open>
  Claim C5, as amended: once \<^verbatim>\<open>succeededAt\<close> is non-null no call unsets it. On a
  table whose ids are distinct, a task that is still there after a call has the
  \<^verbatim>\<open>succeededAt\<close> it had before, except after \<^verbatim>\<open>succeed\<close> on its id, which replaces
  it by the time of that call.
\<close>

theorem succeededAt_never_unset:
  assumes "distinct (map task_id db)" and "exec D now c db = Inr db'"
    and "lookup i db = Some t" and "succeededAt t = Some s" and "lookup i db' = Some t'"
  shows "succeededAt t' = (if c = Succeed i then Some now else Some s)"
  using exec_lookup [OF assms(1) assms(2) assms(3) assms(5)] assms(4)
  by (cases c) (auto simp: retry_data_succeededAt succeed_data_def)

theorem succeededAt_never_unset_witness:
  "distinct (map task_id [mk_task ''a'' 5 1 3 (Some 10)])
   \<and> exec exact_ms 20 (Retry ''a'' None None) [mk_task ''a'' 5 1 3 (Some 10)]
       = Inr [(mk_task ''a'' 5 2 3 (Some 10))\<lparr>lastFailedAttemptAt := Some 20\<rparr>]
   \<and> exec exact_ms 20 (Succeed ''a'') [mk_task ''a'' 5 1 3 (Some 10)] = Inr [mk_task ''a'' 5 2 3 (Some 20)]
   \<and> lookup ''a'' [mk_task ''a'' 5 1 3 (Some 10)] = Some (mk_task ''a'' 5 1 3 (Some 10))
   \<and> succeededAt (mk_task ''a'' 5 1 3 (Some 10)) = Some 10
   \<and> lookup ''a'' [(mk_task ''a'' 5 2 3 (Some 10))\<lparr>lastFailedAttemptAt := Some 20\<rparr>]
       = Some ((mk_task ''a'' 5 2 3 (Some 10))\<lparr>lastFailedAttemptAt := Some 20\<rparr>)
   \<and> lookup ''a'' [mk_task ''a'' 5 2 3 (Some 20)] = Some (mk_task ''a'' 5 2 3 (Some 20))
   \<and> succeededAt ((mk_task ''a'' 5 2 3 (Some 10))\<lparr>lastFailedAttemptAt := Some 20\<rparr>) = Some 10
   \<and> succeededAt (mk_task ''a'' 5 2 3 (Some 20)) = Some 20"
proof -
  have d: "distinct (map task_id [mk_task ''a'' 5 1 3 (Some 10)])" by simp
  have r: "exec exact_ms 20 (Retry ''a'' None None) [mk_task ''a'' 5 1 3 (Some 10)]
       = Inr [(mk_task ''a'' 5 2 3 (Some 10))\<lparr>lastFailedAttemptAt := Some 20\<rparr>]"
    by (simp add: retry_def retry_data_def updatedScheduledAt_def mk_task_def)
  have s: "exec exact_ms 20 (Succeed ''a'') [mk_task ''a'' 5 1 3 (Some 10)]
       = Inr [mk_task ''a'' 5 2 3 (Some 20)]"
    by (simp add: succeed_def succeed_data_def mk_task_def)
  have l: "lookup ''a'' [mk_task ''a'' 5 1 3 (Some 10)] = Some (mk_task ''a'' 5 1 3 (Some 10))"
    by (simp add: lookup_def mk_task_def)
  have a: "succeededAt (mk_task ''a'' 5 1 3 (Some 10)) = Some 10" by (simp add: mk_task_def)
  have lr: "lookup ''a'' [(mk_task ''a'' 5 2 3 (Some 10))\<lparr>lastFailedAttemptAt := Some 20\<rparr>]
       = Some ((mk_task ''a'' 5 2 3 (Some 10))\<lparr>lastFailedAttemptAt := Some 20\<rparr>)"
    by (simp add: lookup_def mk_task_def)
  have ls: "lookup ''a'' [mk_task ''a'' 5 2 3 (Some 20)] = Some (mk_task ''a'' 5 2 3 (Some 20))"
    by (simp add: lookup_def mk_task_def)
  from succeededAt_never_unset [OF d r l a lr] succeededAt_never_unset [OF d s l a ls]
    d r s l a lr ls
  show ?thesis by simp
qed

text \<open>
  The claim as stated fails at a second \<^verbatim>\<open>succeed\<close>: after \<^verbatim>\<open>succeed\<close> at 10 and
  again at 20, \<^verbatim>\<open>succeededAt\<close> is 20.
\<close>

theorem succeed_twice_overwrites_succeededAt:
  "run exact_ms [(10, Succeed ''a'')] [mk_task ''a'' 5 0 3 None] = Inr [mk_task ''a'' 5 1 3 (Some 10)]
   \<and> run exact_ms [(10, Succeed ''a''), (20, Succeed ''a'')] [mk_task ''a'' 5 0 3 None]
       = Inr [mk_task ''a'' 5 2 3 (Some 20)]
   \<and> succeededAt (mk_task ''a'' 5 2 3 (Some 20)) \<noteq> succeededAt (mk_task ''a'' 5 1 3 (Some 10))"
  by (simp add: succeed_def succeed_data_def mk_task_def)

section \<open>Errors\<close>

text \<open>
  Claim C8: \<^verbatim>\<open>cancelWithReference(referenceUid, type)\<close> deletes the matching task and
  returns its id when there is one, returns null without throwing when there is none,
  and throws again every error of the store other than the record-not-found error
  \<^verbatim>\<open>P2025\<close>; \<^verbatim>\<open>cancel\<close>, \<^verbatim>\<open>retry\<close> and \<^verbatim>\<open>succeed\<close> let that error through when
  the id is absent. In the first two conjuncts and the last two the store answers
  (\<open>None\<close>); in the third and fourth it fails the delete with the error \<open>e\<close>. The
  \<^verbatim>\<open>retry\<close> is one whose update is sent to the store, as in C7.
\<close>

theorem cancelWithReference_outcomes:
  "(find (\<lambda>t. referenceUid t = Some r \<and> task_type t = ty) db = Some t
      \<longrightarrow> cancelWithReference None r ty db = Inr (Some (task_id t), remove1 t db))
   \<and> (find (\<lambda>t. referenceUid t = Some r \<and> task_type t = ty) db = None
      \<longrightarrow> cancelWithReference None r ty db = Inr (None, db))
   \<and> (e \<noteq> PrismaClientKnownRequestError ''P2025''
      \<longrightarrow> cancelWithReference (Some e) r ty db = Inl e)
   \<and> cancel (Some e) i db = Inl e
   \<and> (lookup i db = None
      \<longrightarrow> cancel None i db = Inl (PrismaClientKnownRequestError ''P2025'')
        \<and> succeed now i db = Inl (PrismaClientKnownRequestError ''P2025''))
   \<and> (lookup i db = None \<and> updatedScheduledAt D now m \<noteq> Some InvalidDate
      \<longrightarrow> retry D now i le m db = Inl (PrismaClientKnownRequestError ''P2025''))"
proof (intro conjI impI)
  assume "find (\<lambda>t. referenceUid t = Some r \<and> task_type t = ty) db = Some t"
  then show "cancelWithReference None r ty db = Inr (Some (task_id t), remove1 t db)"
    by (simp add: cancelWithReference_def db_task_delete_def delete_unique_some)
next
  assume "find (\<lambda>t. referenceUid t = Some r \<and> task_type t = ty) db = None"
  then show "cancelWithReference None r ty db = Inr (None, db)"
    by (simp add: cancelWithReference_def db_task_delete_def delete_unique_none)
next
  assume "e \<noteq> PrismaClientKnownRequestError ''P2025''"
  then show "cancelWithReference (Some e) r ty db = Inl e"
    by (simp add: cancelWithReference_def db_task_delete_def)
next
  show "cancel (Some e) i db = Inl e"
    by (simp add: cancel_def db_task_delete_def)
next
  assume "lookup i db = None"
  then have n: "find (\<lambda>t. task_id t = i) db = None" by (simp add: lookup_find)
  from n show "cancel None i db = Inl (PrismaClientKnownRequestError ''P2025'')"
    by (simp add: cancel_def db_task_delete_def delete_unique_none)
  from n show "succeed now i db = Inl (PrismaClientKnownRequestError ''P2025'')"
    by (simp add: succeed_def update_unique_none)
next
  assume "lookup i db = None \<and> updatedScheduledAt D now m \<noteq> Some InvalidDate"
  then have n: "find (\<lambda>t. task_id t = i) db = None"
    and v: "updatedScheduledAt D now m \<noteq> Some InvalidDate"
    by (simp_all add: lookup_find)
  then show "retry D now i le m db = Inl (PrismaClientKnownRequestError ''P2025'')"
    by (simp add: retry_def update_unique_none)
qed

theorem cancelWithReference_outcomes_witness:
  "find (\<lambda>t. referenceUid t = Some ''booking-1'' \<and> task_type t = ''sendEmail'')
       [(mk_task ''a'' 5 0 3 None)\<lparr>referenceUid := Some ''booking-1''\<rparr>]
     = Some ((mk_task ''a'' 5 0 3 None)\<lparr>referenceUid := Some ''booking-1''\<rparr>)
   \<and> cancelWithReference None ''booking-1'' ''sendEmail''
       [(mk_task ''a'' 5 0 3 None)\<lparr>referenceUid := Some ''booking-1''\<rparr>] = Inr (Some ''a'', [])
   \<and> find (\<lambda>t. referenceUid t = Some ''booking-2'' \<and> task_type t = ''sendEmail'')
       [(mk_task ''a'' 5 0 3 None)\<lparr>referenceUid := Some ''booking-1''\<rparr>] = None
   \<and> cancelWithReference None ''booking-2'' ''sendEmail''
       [(mk_task ''a'' 5 0 3 None)\<lparr>referenceUid := Some ''booking-1''\<rparr>]
     = Inr (None, [(mk_task ''a'' 5 0 3 None)\<lparr>referenceUid := Some ''booking-1''\<rparr>])
   \<and> OtherError ''connection lost'' \<noteq> PrismaClientKnownRequestError ''P2025''
   \<and> cancelWithReference (Some (OtherError ''connection lost'')) ''booking-1'' ''sendEmail''
       [(mk_task ''a'' 5 0 3 None)\<lparr>referenceUid := Some ''booking-1''\<rparr>]
     = Inl (OtherError ''connection lost'')
   \<and> cancel (Some (OtherError ''connection lost'')) ''b''
       [(mk_task ''a'' 5 0 3 None)\<lparr>referenceUid := Some ''booking-1''\<rparr>]
     = Inl (OtherError ''connection lost'')
   \<and> lookup ''b'' [(mk_task ''a'' 5 0 3 None)\<lparr>referenceUid := Some ''booking-1''\<rparr>] = None
   \<and> updatedScheduledAt exact_ms 10 (Some (Whole 5)) \<noteq> Some InvalidDate
   \<and> cancel None ''b'' [(mk_task ''a'' 5 0 3 None)\<lparr>referenceUid := Some ''booking-1''\<rparr>]
     = Inl (PrismaClientKnownRequestError ''P2025'')
   \<and> retry exact_ms 10 ''b'' None (Some (Whole 5))
       [(mk_task ''a'' 5 0 3 None)\<lparr>referenceUid := Some ''booking-1''\<rparr>]
     = Inl (PrismaClientKnownRequestError ''P2025'')
   \<and> succeed 10 ''b'' [(mk_task ''a'' 5 0 3 None)\<lparr>referenceUid := Some ''booking-1''\<rparr>]
     = Inl (PrismaClientKnownRequestError ''P2025'')"
proof -
  let ?t = "(mk_task ''a'' 5 0 3 None)\<lparr>referenceUid := Some ''booking-1''\<rparr>"
  have f1: "find (\<lambda>t. referenceUid t = Some ''booking-1'' \<and> task_type t = ''sendEmail'') [?t] = Some ?t"
    by (simp add: mk_task_def)
  have f2: "find (\<lambda>t. referenceUid t = Some ''booking-2'' \<and> task_type t = ''sendEmail'') [?t] = None"
    by (simp add: mk_task_def)
  have e: "OtherError ''connection lost'' \<noteq> PrismaClientKnownRequestError ''P2025''"
    by simp
  have l: "lookup ''b'' [?t] = None" by (simp add: lookup_def mk_task_def)
  have v: "updatedScheduledAt exact_ms 10 (Some (Whole 5)) \<noteq> Some InvalidDate"
    by (simp add: updatedScheduledAt_def)
  have i: "task_id ?t = ''a''" by (simp add: mk_task_def)
  from cancelWithReference_outcomes [where r = "''booking-1''" and ty = "''sendEmail''"
      and db = "[?t]" and t = ?t and e = "OtherError ''connection lost''" and i = "''b''"
      and now = 10 and D = exact_ms and m = "Some (Whole 5)" and le = None]
    cancelWithReference_outcomes [where r = "''booking-2''" and ty = "''sendEmail''"
      and db = "[?t]" and t = ?t and e = "OtherError ''connection lost''" and i = "''b''"
      and now = 10 and D = exact_ms and m = "Some (Whole 5)" and le = None]
    f1 f2 e l v i
  show ?thesis by simp
qed

section \<open>Supersession\<close>

lemma queryRaw_payloads_ok:
  "\<forall>t\<in>set db. task_type t = ''scanWorkflowBody'' \<and> succeededAt t = None \<longrightarrow> (\<exists>v. ev (payload t) = Inr v) \<Longrightarrow>
   queryRaw_payloads ev k db
     = Inr (map payload (filter (\<lambda>t. task_type t = ''scanWorkflowBody'' \<and> succeededAt t = None
                                      \<and> ev (payload t) = Inr (Some k)) db))"
proof (induction db)
  case Nil
  then show ?case by simp
next
  case (Cons a db)
  then have ih: "queryRaw_payloads ev k db
     = Inr (map payload (filter (\<lambda>t. task_type t = ''scanWorkflowBody'' \<and> succeededAt t = None
                                      \<and> ev (payload t) = Inr (Some k)) db))"
    by simp
  show ?case
  proof (cases "task_type a = ''scanWorkflowBody'' \<and> succeededAt a = None")
    case True
    with Cons.prems obtain v where "ev (payload a) = Inr v" by auto
    with True ih show ?thesis by simp
  next
    case False
    with ih show ?thesis by auto
  qed
qed

lemma queryRaw_payloads_raises:
  "t \<in> set db \<Longrightarrow> task_type t = ''scanWorkflowBody'' \<Longrightarrow> succeededAt t = None \<Longrightarrow>
   ev (payload t) = Inl e \<Longrightarrow> \<exists>e'. queryRaw_payloads ev k db = Inl e'"
proof (induction db)
  case Nil
  then show ?case by simp
next
  case (Cons a db)
  show ?case
  proof (cases "a = t")
    case True
    with Cons.prems show ?thesis by simp
  next
    case False
    with Cons.prems Cons.IH obtain e' where "queryRaw_payloads ev k db = Inl e'" by auto
    then show ?thesis by (simp split: sum.splits)
  qed
qed

lemma hasNewerScanTaskForStepId_ok:
  assumes "\<forall>t\<in>set db. task_type t = ''scanWorkflowBody'' \<and> succeededAt t = None
             \<longrightarrow> (\<exists>v. jsonb_workflowStepId E (payload t) = Inr v)"
  shows "hasNewerScanTaskForStepId E k c db
     = Inr (\<exists>t\<in>set db. task_type t = ''scanWorkflowBody'' \<and> succeededAt t = None
              \<and> jsonb_workflowStepId E (payload t) = Inr (Some k) \<and> is_newer E c (payload t))"
  unfolding hasNewerScanTaskForStepId_def queryRaw_payloads_ok [OF assms]
  by (auto simp: list_ex_iff)

lemma hasNewerScanTaskForStepId_raises:
  "t \<in> set db \<Longrightarrow> task_type t = ''scanWorkflowBody'' \<Longrightarrow> succeededAt t = None \<Longrightarrow>
   jsonb_workflowStepId E (payload t) = Inl e \<Longrightarrow> \<exists>e'. hasNewerScanTaskForStepId E k c db = Inl e'"
  using queryRaw_payloads_raises [of t db "jsonb_workflowStepId E" e k]
  by (auto simp: hasNewerScanTaskForStepId_def)

lemma is_newer_schema_failure: "schema_parse E p = None \<Longrightarrow> \<not> is_newer E c p"
  by (simp add: is_newer_def)

lemma is_newer_iff:
  "is_newer E c p \<longleftrightarrow>
     (\<exists>parsed s a b. schema_parse E p = Some parsed \<and> body_createdAt parsed = Some s \<and> s \<noteq> []
        \<and> date_value E s = Some a \<and> date_value E c = Some b \<and> b < a)"
  by (auto simp: is_newer_def split: option.splits)

text \<open>
  Claim C9: \<^verbatim>\<open>hasNewerScanTaskForStepId\<close> returns true iff a task of type
  \<^verbatim>\<open>scanWorkflowBody\<close> that has not succeeded and whose payload holds the
  \<^verbatim>\<open>workflowStepId\<close> has a recorded creation time strictly later than the
  candidate's, and a pending task whose payload does not parse or fails the schema is
  left out of the check and causes no error. \<open>hasNewerScanTaskForStepId_ok\<close> is the
  first part, for a query whose casts succeed, and a payload that fails the schema is
  left out (second conjunct below). A pending task whose payload is not JSON makes the
  query, and the call, throw (first conjunct): the cast \<^verbatim>\<open>payload::jsonb\<close> of the query
  raises before the \<^verbatim>\<open>try\<close> around \<^verbatim>\<open>JSON.parse\<close> is reached.
\<close>

theorem hasNewerScanTaskForStepId_raises_on_bad_json:
  "hasNewerScanTaskForStepId example_engines 7 ''2024-01-01T00:00:00.000Z''
       [scan_task ''a'' payload_step7, scan_task ''b'' ''not json'']
     = Inl (PrismaClientKnownRequestError ''P2010'')
   \<and> hasNewerScanTaskForStepId example_engines 7 ''2024-01-01T00:00:00.000Z''
       [scan_task ''a'' payload_step7, scan_task ''b'' payload_bad_schema]
     = Inr True"
  by (simp add: hasNewerScanTaskForStepId_def example_engines_def scan_task_def is_newer_def
      payload_step7_def payload_no_date_def payload_bad_schema_def)

section \<open>Cleanup\<close>

lemma cleanup_writes_nothing: "cleanup db = db"
  by (simp add: cleanup_def)

text \<open>
  Claim C1: \<^verbatim>\<open>cleanup()\<close> deletes exactly the succeeded and the failed tasks, never an
  upcoming one, and no succeeded or failed task remains after it. The call deletes
  nothing: on a table that holds a succeeded task and a task that has used up its
  attempts, both rows are still there after \<^verbatim>\<open>cleanup()\<close>.
\<close>

theorem cleanup_keeps_terminal_tasks:
  "whereSucceeded (mk_task ''a'' 50 1 3 (Some 60))
   \<and> whereMaxAttemptsReached (mk_task ''b'' 50 3 3 None)
   \<and> cleanup [mk_task ''a'' 50 1 3 (Some 60), mk_task ''b'' 50 3 3 None]
       = [mk_task ''a'' 50 1 3 (Some 60), mk_task ''b'' 50 3 3 None]"
  by (simp add: cleanup_def whereSucceeded_def whereMaxAttemptsReached_def mk_task_def)

section \<open>The classification of tasks\<close>

lemma getFailed_set: "set (getFailed db) = {t \<in> set db. attempts t = maxAttempts t}"
  by (simp add: getFailed_def whereMaxAttemptsReached_def)

lemma countFailed_getFailed: "countFailed db = length (getFailed db)"
  by (simp add: countFailed_def getFailed_def)

text \<open>
  Claim C2: the classification behind \<^verbatim>\<open>getFailed()\<close> and \<^verbatim>\<open>countFailed()\<close> holds
  iff \<^verbatim>\<open>attempts >= maxAttempts\<close> and \<^verbatim>\<open>succeededAt\<close> is null. The filter of the
  source is \<^verbatim>\<open>attempts = maxAttempts\<close> alone: of a succeeded task with
  \<^verbatim>\<open>attempts = maxAttempts\<close> and a task that has not succeeded with
  \<^verbatim>\<open>attempts > maxAttempts\<close>, it selects the first, and the predicate of the claim
  selects the second.
\<close>

theorem getFailed_selects_succeeded_task:
  "getFailed [mk_task ''a'' 50 3 3 (Some 60), mk_task ''b'' 50 4 3 None]
     = [mk_task ''a'' 50 3 3 (Some 60)]
   \<and> countFailed [mk_task ''a'' 50 3 3 (Some 60), mk_task ''b'' 50 4 3 None] = 1
   \<and> filter (\<lambda>t. maxAttempts t \<le> attempts t \<and> succeededAt t = None)
        [mk_task ''a'' 50 3 3 (Some 60), mk_task ''b'' 50 4 3 None]
     = [mk_task ''b'' 50 4 3 None]"
  by (simp add: getFailed_def countFailed_def whereMaxAttemptsReached_def mk_task_def)

lemma getNextBatch_length: "length (getNextBatch now db) \<le> 1000"
  by (simp add: getNextBatch_def)

lemma getNextBatch_sorted: "sorted (map scheduledAt (getNextBatch now db))"
  by (simp add: getNextBatch_def take_map [symmetric])

lemma getNextBatch_subset:
  "set (getNextBatch now db)
     \<subseteq> {t \<in> set db. succeededAt t = None \<and> scheduledAt t < now \<and> attempts t < maxAttempts t}"
proof -
  have "set (getNextBatch now db) \<subseteq> set (sort_key scheduledAt (filter (makeWhereUpcomingTasks now) db))"
    unfolding getNextBatch_def by (rule set_take_subset)
  then show ?thesis by (auto simp: makeWhereUpcomingTasks_def)
qed

text \<open>
  Claim C3: \<^verbatim>\<open>getNextBatch\<close> returns up to 1000 tasks, exactly those with
  \<^verbatim>\<open>succeededAt\<close> null, \<^verbatim>\<open>scheduledAt <= now\<close> and \<^verbatim>\<open>attempts < maxAttempts\<close>, by
  ascending \<^verbatim>\<open>scheduledAt\<close>; a task scheduled at \<open>now\<close> exactly is included. The
  filter of the source is \<^verbatim>\<open>scheduledAt < now\<close>: a task that is due at 100, has not
  succeeded and has attempts left is not in the batch read at 100.
\<close>

theorem getNextBatch_skips_task_due_now:
  "succeededAt (mk_task ''a'' 100 0 3 None) = None
   \<and> scheduledAt (mk_task ''a'' 100 0 3 None) \<le> 100
   \<and> attempts (mk_task ''a'' 100 0 3 None) < maxAttempts (mk_task ''a'' 100 0 3 None)
   \<and> getNextBatch 100 [mk_task ''a'' 100 0 3 None] = []
   \<and> countUpcoming 100 [mk_task ''a'' 100 0 3 None] = 0"
  by (simp add: getNextBatch_def countUpcoming_def makeWhereUpcomingTasks_def mk_task_def)

text \<open>
  Claim C4: at every time exactly one of not-yet-due, upcoming, failed, succeeded holds
  of a task; the succeeded set and the failed set are disjoint for every reachable task,
  also when the last \<^verbatim>\<open>succeed()\<close> raised \<^verbatim>\<open>attempts\<close> to \<^verbatim>\<open>maxAttempts\<close>. A task
  created with the default of three attempts, retried twice and then succeeded is
  returned by \<^verbatim>\<open>getSucceeded()\<close> and by \<^verbatim>\<open>getFailed()\<close>; and a task due at 100 is, at
  100, in none of the filters and not scheduled after 100.
\<close>

theorem succeeded_task_is_also_failed:
  "run exact_ms [(10, Create ''a'' 3 ''sendEmail'' ''{}'' None None None),
        (20, Retry ''a'' (Some ''timeout'') None),
        (30, Retry ''a'' (Some ''timeout'') None),
        (40, Succeed ''a'')] []
     = Inr [(mk_task ''a'' 10 3 3 (Some 40))
              \<lparr>lastError := Some ''timeout'', lastFailedAttemptAt := Some 30, createdAt := 10\<rparr>]
   \<and> getSucceeded [(mk_task ''a'' 10 3 3 (Some 40))
              \<lparr>lastError := Some ''timeout'', lastFailedAttemptAt := Some 30, createdAt := 10\<rparr>]
     = getFailed [(mk_task ''a'' 10 3 3 (Some 40))
              \<lparr>lastError := Some ''timeout'', lastFailedAttemptAt := Some 30, createdAt := 10\<rparr>]
   \<and> length (getSucceeded [(mk_task ''a'' 10 3 3 (Some 40))
              \<lparr>lastError := Some ''timeout'', lastFailedAttemptAt := Some 30, createdAt := 10\<rparr>]) = 1
   \<and> \<not> makeWhereUpcomingTasks 100 (mk_task ''b'' 100 0 3 None)
   \<and> \<not> whereMaxAttemptsReached (mk_task ''b'' 100 0 3 None)
   \<and> \<not> whereSucceeded (mk_task ''b'' 100 0 3 None)
   \<and> \<not> 100 < scheduledAt (mk_task ''b'' 100 0 3 None)"
  by (simp add: create_def succeed_def succeed_data_def retry_def retry_data_def
      updatedScheduledAt_def mk_task_def getSucceeded_def getFailed_def
      whereSucceeded_def whereMaxAttemptsReached_def makeWhereUpcomingTasks_def)

end
